theory Spec2Isabelle
  imports Complex_Main
begin

section \<open>Operation metrics of the operation-detail view (OperationData)\<close>

text \<open>
  The component \<^verbatim>\<open>OperationData\<close> derives operator time, machine time and pause time of
  an operation from its task records. This theory embeds its helper functions and the
  body of its \<^verbatim>\<open>metrics\<close> computation, and proves properties of them.

  Conventions of the embedding:
  \<^item> A \<^verbatim>\<open>Date\<close> is its time value \<^verbatim>\<open>getTime()\<close>: an integer number of milliseconds
    since the epoch. Only valid dates reach the arithmetic (\<^verbatim>\<open>parseISO\<close> returns
    \<^verbatim>\<open>null\<close> for an invalid one), and the range limit of time values is not modelled.
  \<^item> Local time is a fixed offset \<open>tz\<close> (milliseconds) from UTC, a parameter of every
    function that reads local calendar fields. Every calendar day then has
    \<open>86400000\<close> milliseconds; daylight-saving transitions are not modelled.
  \<^item> A JavaScript \<^verbatim>\<open>number\<close> that can come out of a division by a stored count is a
    \<open>jsnum\<close>: an exact rational, \<open>+Infinity\<close>, \<open>-Infinity\<close> or \<open>NaN\<close>, with the
    IEEE-754 rules for these special values. Rounding, overflow of finite values and
    the sign of zero are not modelled. The helpers that only subtract time values and
    divide by the constant \<open>60000\<close> return a rational directly.
  \<^item> Strings are byte strings; trimming and upper-casing act on ASCII.
\<close>

subsection \<open>JavaScript numbers\<close>

datatype jsnum = Fin rat | PInf | NInf | NaN

fun jadd :: "jsnum \<Rightarrow> jsnum \<Rightarrow> jsnum" where
  "jadd (Fin a) (Fin b) = Fin (a + b)"
| "jadd NaN _ = NaN"
| "jadd _ NaN = NaN"
| "jadd PInf NInf = NaN"
| "jadd NInf PInf = NaN"
| "jadd PInf _ = PInf"
| "jadd _ PInf = PInf"
| "jadd NInf _ = NInf"
| "jadd _ NInf = NInf"

fun jneg :: "jsnum \<Rightarrow> jsnum" where
  "jneg (Fin a) = Fin (- a)"
| "jneg PInf = NInf"
| "jneg NInf = PInf"
| "jneg NaN = NaN"

definition jsub :: "jsnum \<Rightarrow> jsnum \<Rightarrow> jsnum" where
  "jsub a b = jadd a (jneg b)"

text \<open>Division: a finite non-zero value over zero is an infinity, zero over zero is
  \<open>NaN\<close>. Every zero divisor of the component is a stored count or a literal.\<close>

fun jdiv :: "jsnum \<Rightarrow> jsnum \<Rightarrow> jsnum" where
  "jdiv (Fin a) (Fin b) =
     (if b = 0 then (if a = 0 then NaN else if 0 < a then PInf else NInf)
      else Fin (a / b))"
| "jdiv NaN _ = NaN"
| "jdiv _ NaN = NaN"
| "jdiv PInf (Fin b) = (if 0 \<le> b then PInf else NInf)"
| "jdiv NInf (Fin b) = (if 0 \<le> b then NInf else PInf)"
| "jdiv (Fin a) PInf = Fin 0"
| "jdiv (Fin a) NInf = Fin 0"
| "jdiv PInf PInf = NaN"
| "jdiv PInf NInf = NaN"
| "jdiv NInf PInf = NaN"
| "jdiv NInf NInf = NaN"

text \<open>\<^verbatim>\<open>Math.max\<close> of two numbers: \<open>NaN\<close> if either is.\<close>

fun jmax :: "jsnum \<Rightarrow> jsnum \<Rightarrow> jsnum" where
  "jmax (Fin a) (Fin b) = Fin (max a b)"
| "jmax NaN _ = NaN"
| "jmax _ NaN = NaN"
| "jmax PInf _ = PInf"
| "jmax _ PInf = PInf"
| "jmax NInf b = b"
| "jmax a NInf = a"

text \<open>The comparisons \<^verbatim>\<open><=\<close> and \<^verbatim>\<open><\<close>: false whenever an operand is \<open>NaN\<close>.\<close>

fun jle :: "jsnum \<Rightarrow> jsnum \<Rightarrow> bool" where
  "jle (Fin a) (Fin b) = (a \<le> b)"
| "jle NaN _ = False"
| "jle _ NaN = False"
| "jle NInf _ = True"
| "jle _ PInf = True"
| "jle PInf _ = False"
| "jle _ NInf = False"

fun jlt :: "jsnum \<Rightarrow> jsnum \<Rightarrow> bool" where
  "jlt (Fin a) (Fin b) = (a < b)"
| "jlt NaN _ = False"
| "jlt _ NaN = False"
| "jlt PInf _ = False"
| "jlt _ NInf = False"
| "jlt NInf _ = True"
| "jlt _ PInf = True"

fun isFinite :: "jsnum \<Rightarrow> bool" where
  "isFinite (Fin a) = True"
| "isFinite _ = False"

definition num :: "int \<Rightarrow> jsnum" where
  "num n = Fin (of_int n)"

subsection \<open>Time helpers\<close>

type_synonym date = int

text \<open>\<^verbatim>\<open>parseISO\<close>: \<^verbatim>\<open>null\<close> for a missing or empty string and for a string whose
  \<^verbatim>\<open>Date\<close> is invalid. The built-in constructor \<^verbatim>\<open>new Date(s)\<close> is the parameter
  \<open>dateOf\<close>, which gives \<open>None\<close> for an invalid date.\<close>

definition parseISO :: "(string \<Rightarrow> date option) \<Rightarrow> string option \<Rightarrow> date option" where
  "parseISO dateOf s =
     (case s of
        None \<Rightarrow> None
      | Some str \<Rightarrow> if str = [] then None else dateOf str)"

definition minutesBetween :: "date \<Rightarrow> date \<Rightarrow> rat" where
  "minutesBetween a b = max 0 (of_int (b - a) / 60000)"

record pause_def =
  startH :: int
  startM :: int
  endH :: int
  endM :: int

definition PAUSE_DEFS :: "pause_def list" where
  "PAUSE_DEFS =
     [\<lparr>startH = 10, startM = 0, endH = 10, endM = 10\<rparr>,
      \<lparr>startH = 12, startM = 30, endH = 13, endM = 20\<rparr>,
      \<lparr>startH = 15, startM = 30, endH = 15, endM = 40\<rparr>]"

definition overlapMinutes :: "date \<Rightarrow> date \<Rightarrow> date \<Rightarrow> date \<Rightarrow> rat" where
  "overlapMinutes aStart aEnd bStart bEnd =
     (let s = max aStart bStart;
          e = min aEnd bEnd
      in max 0 (of_int (e - s) / 60000))"

definition msPerDay :: int where
  "msPerDay = 86400000"

text \<open>\<^verbatim>\<open>d.setHours(0, 0, 0, 0)\<close>: the local midnight at or before \<open>d\<close>.\<close>

definition setHours0 :: "int \<Rightarrow> date \<Rightarrow> date" where
  "setHours0 tz d = d - (d + tz) mod msPerDay"

text \<open>\<^verbatim>\<open>new Date(cur.getFullYear(), cur.getMonth(), cur.getDate(), h, m, 0, 0)\<close> for a
  cursor \<open>cur\<close> that is a local midnight: the local time \<open>h:m\<close> of that day.\<close>

definition atTimeOfDay :: "date \<Rightarrow> int \<Rightarrow> int \<Rightarrow> date" where
  "atTimeOfDay cur h m = cur + (h * 60 + m) * 60000"

text \<open>The inner \<^verbatim>\<open>for (const pd of PAUSE_DEFS)\<close> loop for one day.\<close>

fun pauseWindows :: "date \<Rightarrow> date \<Rightarrow> date \<Rightarrow> rat \<Rightarrow> pause_def list \<Rightarrow> rat" where
  "pauseWindows start end' cur tot [] = tot"
| "pauseWindows start end' cur tot (pd # pds) =
     (let pStart = atTimeOfDay cur (startH pd) (startM pd);
          pEnd = atTimeOfDay cur (endH pd) (endM pd)
      in pauseWindows start end' cur (tot + overlapMinutes start end' pStart pEnd) pds)"

text \<open>The outer \<^verbatim>\<open>while (cur <= endDay)\<close> loop; \<^verbatim>\<open>cur.setDate(cur.getDate() + 1)\<close>
  moves the cursor to the next local midnight.\<close>

function pauseDays :: "date \<Rightarrow> date \<Rightarrow> date \<Rightarrow> date \<Rightarrow> rat \<Rightarrow> rat" where
  "pauseDays start end' cur endDay tot =
     (if cur \<le> endDay
      then pauseDays start end' (cur + msPerDay) endDay
             (pauseWindows start end' cur tot PAUSE_DEFS)
      else tot)"
  by pat_completeness auto
termination
  by (relation "measure (\<lambda>(start, end', cur, endDay, tot). nat (endDay - cur + 1))")
     (auto simp: msPerDay_def)

declare pauseDays.simps [simp del]

definition sumPauseOverlapBetween :: "int \<Rightarrow> date \<Rightarrow> date \<Rightarrow> rat" where
  "sumPauseOverlapBetween tz start end' =
     (if end' \<le> start then 0
      else pauseDays start end' (setHours0 tz start) (setHours0 tz end') 0)"

subsection \<open>Machine type of an operation\<close>

text \<open>\<^verbatim>\<open>String.prototype.trim\<close> and \<^verbatim>\<open>toUpperCase\<close> on ASCII.\<close>

definition isWhiteSpace :: "char \<Rightarrow> bool" where
  "isWhiteSpace c =
     (c = CHR 0x09 \<or> c = CHR 0x0A \<or> c = CHR 0x0B \<or> c = CHR 0x0C \<or> c = CHR 0x0D \<or> c = CHR 0x20)"

definition trim :: "string \<Rightarrow> string" where
  "trim s = rev (dropWhile isWhiteSpace (rev (dropWhile isWhiteSpace s)))"

definition toUpperChar :: "char \<Rightarrow> char" where
  "toUpperChar c =
     (case map_of (zip ''abcdefghijklmnopqrstuvwxyz'' ''ABCDEFGHIJKLMNOPQRSTUVWXYZ'') c of
        None \<Rightarrow> c
      | Some u \<Rightarrow> u)"

definition toUpperCase :: "string \<Rightarrow> string" where
  "toUpperCase s = map toUpperChar s"

text \<open>The fields of an operation that \<^verbatim>\<open>getOperationMachineType\<close> reads through
  \<^verbatim>\<open>(operation as any)\<close>: \<^verbatim>\<open>machine_type\<close>, \<^verbatim>\<open>machine?.type\<close> (here \<open>m_type\<close> of the
  optional \<open>machine\<close>), \<^verbatim>\<open>type\<close> (here \<open>op_type\<close>) and \<^verbatim>\<open>operation_type\<close>. A field
  that is absent or \<^verbatim>\<open>null\<close> is \<open>None\<close>.\<close>

record Machine =
  m_type :: "string option"

record Operation =
  machine_type :: "string option"
  machine :: "Machine option"
  op_type :: "string option"
  operation_type :: "string option"

text \<open>The \<^verbatim>\<open>for (const v of possible)\<close> loop: a falsy value is skipped, and so is a
  value whose trimmed text is empty. \<open>possible\<close> is the array of candidate fields.\<close>

fun firstMachineType :: "string option list \<Rightarrow> string option" where
  "firstMachineType [] = None"
| "firstMachineType (v # vs) =
     (case v of
        None \<Rightarrow> firstMachineType vs
      | Some x \<Rightarrow>
          if x = [] then firstMachineType vs
          else (let s = toUpperCase (trim x)
                in if s \<noteq> [] then Some s else firstMachineType vs))"

definition possible :: "Operation \<Rightarrow> string option list" where
  "possible opn =
     [machine_type opn,
      (case machine opn of None \<Rightarrow> None | Some m \<Rightarrow> m_type m),
      op_type opn,
      operation_type opn]"

definition getOperationMachineType :: "Operation option \<Rightarrow> string option" where
  "getOperationMachineType operation =
     (case operation of
        None \<Rightarrow> None
      | Some opn \<Rightarrow> firstMachineType (possible opn))"

subsection \<open>The metrics computation\<close>

text \<open>The fields of a task and of an order that the computation reads.\<close>

record Task =
  start_at :: "string option"
  end_at :: "string option"
  num_benches :: "int option"
  num_machines :: "int option"
  process_type :: "string option"

record Order =
  num_pieces :: "int option"

record Metrics =
  totalTasks :: nat
  tMdoMinutes :: jsnum
  tMaqMinutes :: jsnum
  pauseMinutes :: jsnum
  prepVerifyMinutes :: jsnum
  earliestStart :: "date option"
  latestEnd :: "date option"
  perPieceMdo :: "jsnum option"
  perPieceMaq :: "jsnum option"

text \<open>An element of \<^verbatim>\<open>taskDurations\<close>.\<close>

record TaskDuration =
  td_task :: Task
  td_start :: "date option"
  td_end :: "date option"
  td_duration :: "rat option"

definition taskDuration :: "(string \<Rightarrow> date option) \<Rightarrow> Task \<Rightarrow> TaskDuration" where
  "taskDuration dateOf t =
     (let s = parseISO dateOf (start_at t);
          e = parseISO dateOf (end_at t)
      in case (s, e) of
           (Some sd, Some ed) \<Rightarrow>
             \<lparr>td_task = t, td_start = s, td_end = e, td_duration = Some (minutesBetween sd ed)\<rparr>
         | _ \<Rightarrow> \<lparr>td_task = t, td_start = s, td_end = e, td_duration = None\<rparr>)"

text \<open>The nullish default \<^verbatim>\<open>v ?? d\<close>.\<close>

definition orElse :: "'a option \<Rightarrow> 'a \<Rightarrow> 'a" where
  "orElse v d = (case v of None \<Rightarrow> d | Some x \<Rightarrow> x)"

text \<open>The constants of the loop body, in the order of the source.\<close>

definition pauseOverlap :: "int \<Rightarrow> Task \<Rightarrow> date \<Rightarrow> date \<Rightarrow> jsnum" where
  "pauseOverlap tz t s e =
     jdiv (jdiv (Fin (sumPauseOverlapBetween tz s e)) (num (orElse (num_benches t) 1)))
          (num (orElse (num_machines t) 1))"

definition adjustedDuration :: "bool \<Rightarrow> rat \<Rightarrow> jsnum \<Rightarrow> jsnum" where
  "adjustedDuration subtractPausesForConventional durationMinutes p =
     jmax (Fin 0)
       (jsub (Fin durationMinutes) (if subtractPausesForConventional then p else Fin 0))"

definition numMachines :: "Task \<Rightarrow> int" where
  "numMachines t = max 1 (orElse (num_machines t) 1)"

definition numOperators :: "Task \<Rightarrow> int" where
  "numOperators t = max 1 (orElse (num_benches t) 1)"

definition operatorTime :: "jsnum \<Rightarrow> Task \<Rightarrow> jsnum" where
  "operatorTime adjusted t = jdiv (jdiv adjusted (num (numMachines t))) (num (numOperators t))"

definition machineTime :: "jsnum \<Rightarrow> Task \<Rightarrow> jsnum" where
  "machineTime adjusted t = jdiv adjusted (num (numOperators t))"

text \<open>The aggregates the loop updates.\<close>

record Aggregates =
  tMdo :: jsnum
  tMaq :: jsnum
  totalRawActiveMinutes :: jsnum
  prepVerify :: jsnum
  earliest :: "date option"
  latest :: "date option"
  totalPauseOverlapFromTasks :: jsnum

definition initialAggregates :: Aggregates where
  "initialAggregates =
     \<lparr>tMdo = Fin 0, tMaq = Fin 0, totalRawActiveMinutes = Fin 0, prepVerify = Fin 0,
      earliest = None, latest = None, totalPauseOverlapFromTasks = Fin 0\<rparr>"

text \<open>One iteration of \<^verbatim>\<open>for (const td of taskDurations)\<close>.\<close>

definition taskStep :: "int \<Rightarrow> bool \<Rightarrow> Aggregates \<Rightarrow> TaskDuration \<Rightarrow> Aggregates" where
  "taskStep tz subtractPausesForConventional a td =
     (case (td_duration td, td_start td, td_end td) of
        (Some durationMinutes, Some s, Some e) \<Rightarrow>
          (let t = td_task td;
               p = pauseOverlap tz t s e;
               adjusted = adjustedDuration subtractPausesForConventional durationMinutes p
           in \<lparr>tMdo = jadd (tMdo a) (operatorTime adjusted t),
               tMaq = jadd (tMaq a) (machineTime adjusted t),
               totalRawActiveMinutes = jadd (totalRawActiveMinutes a) (Fin durationMinutes),
               prepVerify =
                 (if process_type t = Some ''PREPARATION'' \<or> process_type t = Some ''QUALITY_CONTROL''
                  then jadd (prepVerify a) (Fin durationMinutes) else prepVerify a),
               earliest =
                 (case earliest a of
                    None \<Rightarrow> Some s
                  | Some x \<Rightarrow> if s < x then Some s else Some x),
               latest =
                 (case latest a of
                    None \<Rightarrow> Some e
                  | Some x \<Rightarrow> if x < e then Some e else Some x),
               totalPauseOverlapFromTasks = jadd (totalPauseOverlapFromTasks a) p\<rparr>)
      | _ \<Rightarrow> a)"

definition emptyMetrics :: Metrics where
  "emptyMetrics =
     \<lparr>totalTasks = 0, tMdoMinutes = Fin 0, tMaqMinutes = Fin 0, pauseMinutes = Fin 0,
      prepVerifyMinutes = Fin 0, earliestStart = None, latestEnd = None,
      perPieceMdo = None, perPieceMaq = None\<rparr>"

text \<open>\<^verbatim>\<open>order?.num_pieces ?? null\<close>, kept only if truthy and positive.\<close>

definition numPieces :: "Order option \<Rightarrow> int option" where
  "numPieces order =
     (case order of
        None \<Rightarrow> None
      | Some ord \<Rightarrow>
          (case num_pieces ord of
             None \<Rightarrow> None
           | Some n \<Rightarrow> if n \<noteq> 0 \<and> 0 < n then Some n else None))"

text \<open>The body of the \<^verbatim>\<open>metrics\<close> memo. \<open>tasks\<close> is \<open>None\<close> while no task list is loaded.\<close>

definition metrics ::
  "(string \<Rightarrow> date option) \<Rightarrow> int \<Rightarrow> Task list option \<Rightarrow> Order option \<Rightarrow> Operation option \<Rightarrow> Metrics"
where
  "metrics dateOf tz tasks order operation =
     (case tasks of
        None \<Rightarrow> emptyMetrics
      | Some ts \<Rightarrow>
          if ts = [] then emptyMetrics
          else
            (let taskDurations = map (taskDuration dateOf) ts;
                 machineType = getOperationMachineType operation;
                 subtractPausesForConventional = (machineType = Some ''CONVENTIONAL'');
                 a = foldl (taskStep tz subtractPausesForConventional) initialAggregates taskDurations;
                 pauseMins = totalPauseOverlapFromTasks a;
                 tMdoFinal = jsub (tMdo a) pauseMins
             in \<lparr>totalTasks = length ts,
                 tMdoMinutes = tMdoFinal,
                 tMaqMinutes = tMaq a,
                 pauseMinutes = pauseMins,
                 prepVerifyMinutes = prepVerify a,
                 earliestStart = earliest a,
                 latestEnd = latest a,
                 perPieceMdo = map_option (\<lambda>n. jdiv tMdoFinal (num n)) (numPieces order),
                 perPieceMaq = map_option (\<lambda>n. jdiv (tMaq a) (num n)) (numPieces order)\<rparr>))"

subsection \<open>Notions used in the statements\<close>

text \<open>The overlap of two intervals in milliseconds, and the part of \<open>[s, e]\<close> that
  lies at or after a cursor \<open>c\<close>.\<close>

definition overlapMs :: "date \<Rightarrow> date \<Rightarrow> date \<Rightarrow> date \<Rightarrow> int" where
  "overlapMs a b c d = max 0 (min b d - max a c)"

definition restMs :: "date \<Rightarrow> date \<Rightarrow> date \<Rightarrow> int" where
  "restMs s e c = max 0 (e - max s c)"

text \<open>The sum of a list of numbers, added from the left starting at \<open>0\<close> as the loop
  does.\<close>

definition jsum :: "jsnum list \<Rightarrow> jsnum" where
  "jsum xs = foldl jadd (Fin 0) xs"

text \<open>A task has timestamps when both \<^verbatim>\<open>start_at\<close> and \<^verbatim>\<open>end_at\<close> parse;
  \<open>timedTasks\<close> lists these tasks, in order, with their two dates.\<close>

definition hasTimestamps :: "(string \<Rightarrow> date option) \<Rightarrow> Task \<Rightarrow> bool" where
  "hasTimestamps dateOf t =
     (parseISO dateOf (start_at t) \<noteq> None \<and> parseISO dateOf (end_at t) \<noteq> None)"

fun timedTasks :: "(string \<Rightarrow> date option) \<Rightarrow> Task list \<Rightarrow> (Task \<times> date \<times> date) list" where
  "timedTasks dateOf [] = []"
| "timedTasks dateOf (t # ts) =
     (case (parseISO dateOf (start_at t), parseISO dateOf (end_at t)) of
        (Some s, Some e) \<Rightarrow> (t, s, e) # timedTasks dateOf ts
      | _ \<Rightarrow> timedTasks dateOf ts)"

text \<open>A stored count is usable when it is absent or at least \<open>1\<close>.\<close>

definition countOk :: "int option \<Rightarrow> bool" where
  "countOk c = (case c of None \<Rightarrow> True | Some n \<Rightarrow> 1 \<le> n)"

definition countsOk :: "Task \<Rightarrow> bool" where
  "countsOk t = (countOk (num_benches t) \<and> countOk (num_machines t))"

text \<open>The per-task pause overlap as the specification words it: the calculator's result
  divided by \<open>max(1, num_benches)\<close> and by \<open>max(1, num_machines)\<close>.\<close>

definition pauseOverlapSpec :: "int \<Rightarrow> Task \<Rightarrow> date \<Rightarrow> date \<Rightarrow> jsnum" where
  "pauseOverlapSpec tz t s e =
     Fin (sumPauseOverlapBetween tz s e
            / of_int (max 1 (orElse (num_benches t) 1))
            / of_int (max 1 (orElse (num_machines t) 1)))"

text \<open>The text a candidate field contributes: trimmed and upper-cased, empty for an
  absent field. A field is blank when this text is empty.\<close>

definition fieldText :: "string option \<Rightarrow> string" where
  "fieldText v = (case v of None \<Rightarrow> [] | Some x \<Rightarrow> toUpperCase (trim x))"

definition blank :: "string option \<Rightarrow> bool" where
  "blank v = (fieldText v = [])"

text \<open>\<open>sameLetters x w\<close>: \<open>x\<close> is the word \<open>w\<close> in some letter case, for a lower-case
  word \<open>w\<close>.\<close>

definition sameLetters :: "string \<Rightarrow> string \<Rightarrow> bool" where
  "sameLetters x w = list_all2 (\<lambda>c d. c = d \<or> c = toUpperChar d) x w"

text \<open>Sample data: five instants of 1 January 2024 (UTC) as the date parser reads
  them, tasks between them, and operations.\<close>

definition sampleDate :: "string \<Rightarrow> date option" where
  "sampleDate s =
     (if s = ''2024-01-01T08:00:00Z'' then Some 1704096000000
      else if s = ''2024-01-01T09:00:00Z'' then Some 1704099600000
      else if s = ''2024-01-01T10:00:00Z'' then Some 1704103200000
      else if s = ''2024-01-01T10:05:00Z'' then Some 1704103500000
      else if s = ''2024-01-01T10:10:00Z'' then Some 1704103800000
      else None)"

definition sampleTask :: "string option \<Rightarrow> string option \<Rightarrow> int option \<Rightarrow> int option \<Rightarrow> Task" where
  "sampleTask s e benches machines =
     \<lparr>start_at = s, end_at = e, num_benches = benches, num_machines = machines,
      process_type = Some ''PRODUCTION''\<rparr>"

text \<open>A task from 10:00 to 10:05, inside the morning pause, with one bench and one
  machine; a task with no end; a task whose start does not parse.\<close>

definition taskInPause :: Task where
  "taskInPause =
     sampleTask (Some ''2024-01-01T10:00:00Z'') (Some ''2024-01-01T10:05:00Z'') (Some 1) (Some 1)"

definition taskNoEnd :: Task where
  "taskNoEnd = sampleTask (Some ''2024-01-01T10:00:00Z'') None (Some 1) (Some 1)"

definition taskBadStart :: Task where
  "taskBadStart = sampleTask (Some ''soon'') (Some ''2024-01-01T10:05:00Z'') (Some 1) (Some 1)"

text \<open>Tasks stored with zero benches: from 10:00 to 10:10 (the morning pause), from
  08:00 to 09:00 (outside every pause), and from 09:00 back to 08:00.\<close>

definition taskZeroBenchesInPause :: Task where
  "taskZeroBenchesInPause =
     sampleTask (Some ''2024-01-01T10:00:00Z'') (Some ''2024-01-01T10:10:00Z'') (Some 0) (Some 1)"

definition taskZeroBenches :: Task where
  "taskZeroBenches =
     sampleTask (Some ''2024-01-01T08:00:00Z'') (Some ''2024-01-01T09:00:00Z'') (Some 0) (Some 1)"

definition taskZeroBenchesReversed :: Task where
  "taskZeroBenchesReversed =
     sampleTask (Some ''2024-01-01T09:00:00Z'') (Some ''2024-01-01T08:00:00Z'') (Some 0) (Some 1)"

definition sampleOperation :: "string \<Rightarrow> Operation" where
  "sampleOperation mt =
     \<lparr>machine_type = Some mt, machine = None, op_type = None, operation_type = None\<rparr>"

text \<open>Operations with no machine-type field: one whose \<^verbatim>\<open>type\<close> is \<open>Conventional\<close>,
  one whose \<^verbatim>\<open>type\<close> is blank and whose \<^verbatim>\<open>operation_type\<close> is \<open>conventional\<close>, and
  one whose \<^verbatim>\<open>type\<close> is \<open>CNC\<close> and whose \<^verbatim>\<open>operation_type\<close> is \<open>conventional\<close>.\<close>

definition operationTyped :: Operation where
  "operationTyped =
     \<lparr>machine_type = None, machine = None, op_type = Some ''Conventional'',
      operation_type = None\<rparr>"

definition operationBlankType :: Operation where
  "operationBlankType =
     \<lparr>machine_type = None, machine = None, op_type = Some '' '',
      operation_type = Some ''conventional''\<rparr>"

definition operationCncType :: Operation where
  "operationCncType =
     \<lparr>machine_type = None, machine = None, op_type = Some ''CNC'',
      operation_type = Some ''conventional''\<rparr>"

text \<open>An operation whose machine object has no \<^verbatim>\<open>type\<close> and whose own \<^verbatim>\<open>type\<close> is
  \<open>conventional\<close>; and an operation whose \<^verbatim>\<open>machine_type\<close> is \<open>cnc\<close> while the three
  other fields are \<open>conventional\<close>.\<close>

definition operationMachineNoType :: Operation where
  "operationMachineNoType =
     \<lparr>machine_type = None, machine = Some \<lparr>m_type = None\<rparr>,
      op_type = Some ''conventional'', operation_type = None\<rparr>"

definition operationCncMachineType :: Operation where
  "operationCncMachineType =
     \<lparr>machine_type = Some ''cnc'', machine = Some \<lparr>m_type = Some ''conventional''\<rparr>,
      op_type = Some ''conventional'', operation_type = Some ''conventional''\<rparr>"

subsection \<open>Facts about the pause calculator\<close>

lemma overlapMinutes_ms: "overlapMinutes a b c d = of_int (overlapMs a b c d) / 60000"
  by (simp add: overlapMinutes_def overlapMs_def Let_def max_def)

lemma pauseWindows_day:
  "pauseWindows s e cur tot PAUSE_DEFS =
     tot + of_int (overlapMs s e (cur + 36000000) (cur + 36600000)
                 + overlapMs s e (cur + 45000000) (cur + 48000000)
                 + overlapMs s e (cur + 55800000) (cur + 56400000)) / 60000"
  by (simp add: PAUSE_DEFS_def atTimeOfDay_def overlapMinutes_ms add_divide_distrib)

lemma windows_within_day:
  "overlapMs s e (cur + 36000000) (cur + 36600000)
   + overlapMs s e (cur + 45000000) (cur + 48000000)
   + overlapMs s e (cur + 55800000) (cur + 56400000)
   + restMs s e (cur + 86400000) \<le> restMs s e cur"
  by (simp add: overlapMs_def restMs_def max_def min_def)

lemma pauseDays_stop: "endDay < cur \<Longrightarrow> pauseDays s e cur endDay tot = tot"
  by (subst pauseDays.simps) simp

lemma pauseDays_next:
  "cur \<le> endDay \<Longrightarrow>
     pauseDays s e cur endDay tot =
       pauseDays s e (cur + msPerDay) endDay (pauseWindows s e cur tot PAUSE_DEFS)"
  by (subst pauseDays.simps) simp

lemma pauseDays_le_rest:
  "pauseDays s e cur endDay tot \<le> tot + of_int (restMs s e cur) / 60000"
proof (induction s e cur endDay tot rule: pauseDays.induct)
  case (1 s e cur endDay tot)
  show ?case
  proof (cases "cur \<le> endDay")
    case True
    have day: "(of_int (overlapMs s e (cur + 36000000) (cur + 36600000)
                 + overlapMs s e (cur + 45000000) (cur + 48000000)
                 + overlapMs s e (cur + 55800000) (cur + 56400000)
                 + restMs s e (cur + 86400000)) :: rat) \<le> of_int (restMs s e cur)"
      using windows_within_day [of s e cur] by (simp only: of_int_le_iff)
    have "pauseDays s e cur endDay tot
            \<le> pauseWindows s e cur tot PAUSE_DEFS + of_int (restMs s e (cur + msPerDay)) / 60000"
      using "1.IH" [OF True] by (simp add: pauseDays_next [OF True])
    also have "\<dots> \<le> tot + of_int (restMs s e cur) / 60000"
      using day by (simp add: pauseWindows_day msPerDay_def add_divide_distrib divide_right_mono)
    finally show ?thesis .
  next
    case False
    then show ?thesis by (simp add: pauseDays_stop restMs_def)
  qed
qed

lemma setHours0_le: "setHours0 tz d \<le> d"
  by (simp add: setHours0_def msPerDay_def)

lemma setHours0_midnight: "(d + tz) mod msPerDay = 0 \<Longrightarrow> setHours0 tz d = d"
  by (simp add: setHours0_def)

lemma sumPause_sample_10: "sumPauseOverlapBetween 0 1704103200000 1704103800000 = 10"
  by (simp add: sumPauseOverlapBetween_def setHours0_def msPerDay_def pauseDays.simps
      pauseWindows_day overlapMs_def)

lemma sumPause_sample_5: "sumPauseOverlapBetween 0 1704103200000 1704103500000 = 5"
  by (simp add: sumPauseOverlapBetween_def setHours0_def msPerDay_def pauseDays.simps
      pauseWindows_day overlapMs_def)

lemma sumPause_sample_0: "sumPauseOverlapBetween 0 1704096000000 1704099600000 = 0"
  by (simp add: sumPauseOverlapBetween_def setHours0_def msPerDay_def pauseDays.simps
      pauseWindows_day overlapMs_def)

text \<open>
  Claim C9. For every pair of dates with \<open>start \<le> end\<close> and every time-zone offset,
  the pause-overlap calculator returns at most the length of the interval in minutes:
  \<open>sumPauseOverlapBetween start end \<le> minutesBetween start end\<close>. The three windows
  of a day are disjoint and lie inside the day, so each day adds at most the part of the
  interval that falls into it (\<open>windows_within_day\<close>).
\<close>

theorem pause_overlap_le_interval:
  assumes "start \<le> end'"
  shows "sumPauseOverlapBetween tz start end' \<le> minutesBetween start end'"
proof (cases "end' \<le> start")
  case True
  then show ?thesis by (simp add: sumPauseOverlapBetween_def minutesBetween_def)
next
  case False
  have "restMs start end' (setHours0 tz start) = end' - start"
    using setHours0_le [of tz start] False by (simp add: restMs_def max_def)
  then show ?thesis
    using pauseDays_le_rest [of start end' "setHours0 tz start" "setHours0 tz end'" 0] False
    by (simp add: sumPauseOverlapBetween_def minutesBetween_def)
qed

theorem pause_overlap_le_interval_witness:
  "(1704103200000 :: int) \<le> 1704103800000 \<and>
   sumPauseOverlapBetween 0 1704103200000 1704103800000 = 10 \<and>
   minutesBetween 1704103200000 1704103800000 = 10 \<and>
   sumPauseOverlapBetween 0 1704103200000 1704103800000
     \<le> minutesBetween 1704103200000 1704103800000"
  using pause_overlap_le_interval [of 1704103200000 1704103800000 0]
  by (simp add: sumPause_sample_10 minutesBetween_def)

text \<open>
  Claim C4. For an interval of 48 hours that starts at a local midnight (and so ends at
  the local midnight two days later), the pause-overlap calculator returns exactly
  \<open>140\<close> minutes, twice the \<open>10 + 50 + 10\<close> minutes of the three daily windows.
\<close>

theorem two_full_days_140:
  assumes "(start + tz) mod msPerDay = 0"
  shows "sumPauseOverlapBetween tz start (start + 2 * msPerDay) = 140"
proof -
  define D1 where "D1 = start + msPerDay"
  define D2 where "D2 = D1 + msPerDay"
  have D2: "D2 = start + 2 * msPerDay"
    by (simp add: D1_def D2_def)
  have "start + 2 * msPerDay + tz = start + tz + 2 * msPerDay"
    by simp
  then have "(start + 2 * msPerDay + tz) mod msPerDay = (start + tz) mod msPerDay"
    by (simp only: mod_mult_self1 mod_mult_self2)
  then have endDay: "setHours0 tz D2 = D2"
    using assms by (simp add: setHours0_def D2)
  have w0: "pauseWindows start D2 start 0 PAUSE_DEFS = 70"
    by (simp add: pauseWindows_day overlapMs_def D2 msPerDay_def)
  have w1: "pauseWindows start D2 D1 70 PAUSE_DEFS = 140"
    by (simp add: pauseWindows_day overlapMs_def D1_def D2 msPerDay_def)
  have w2: "pauseWindows start D2 D2 140 PAUSE_DEFS = 140"
    by (simp add: pauseWindows_day overlapMs_def D2 msPerDay_def)
  have le0: "start \<le> D2" and le1: "D1 \<le> D2" and le2: "D2 \<le> D2" and gt: "D2 < D2 + msPerDay"
    by (simp_all add: D1_def D2_def msPerDay_def)
  have "pauseDays start D2 start D2 0 = pauseDays start D2 D1 D2 70"
    by (simp only: pauseDays_next [OF le0] w0 D1_def [symmetric])
  also have "\<dots> = pauseDays start D2 D2 D2 140"
    by (simp only: pauseDays_next [OF le1] w1 D2_def [symmetric])
  also have "\<dots> = pauseDays start D2 (D2 + msPerDay) D2 140"
    by (simp only: pauseDays_next [OF le2] w2)
  also have "\<dots> = 140"
    by (rule pauseDays_stop [OF gt])
  finally have "pauseDays start D2 start D2 0 = 140" .
  moreover have "\<not> D2 \<le> start"
    by (simp add: D2 msPerDay_def)
  ultimately have "sumPauseOverlapBetween tz start D2 = 140"
    by (simp add: sumPauseOverlapBetween_def setHours0_midnight [OF assms] endDay)
  then show ?thesis
    by (simp only: D2)
qed

theorem two_full_days_140_witness:
  "(1704067200000 + 0) mod msPerDay = 0 \<and>
   sumPauseOverlapBetween 0 1704067200000 1704240000000 = 140"
  using two_full_days_140 [of 1704067200000 0] by (simp add: msPerDay_def)

subsection \<open>The empty task list\<close>

text \<open>
  Claim C5. For an empty task list the aggregator returns \<open>0\<close> for the task count,
  operator minutes, machine minutes, pause minutes and preparation/verification minutes,
  and \<open>null\<close> for both per-piece metrics (and for the earliest start and latest end),
  whatever the operation's machine type and the order's piece count. A task list that is
  not loaded gives the same result.
\<close>

theorem empty_task_list_metrics:
  "metrics dateOf tz (Some []) order operation =
     \<lparr>totalTasks = 0, tMdoMinutes = Fin 0, tMaqMinutes = Fin 0, pauseMinutes = Fin 0,
      prepVerifyMinutes = Fin 0, earliestStart = None, latestEnd = None,
      perPieceMdo = None, perPieceMaq = None\<rparr>
   \<and> metrics dateOf tz None order operation = metrics dateOf tz (Some []) order operation"
  by (simp add: metrics_def emptyMetrics_def)

subsection \<open>Facts about the task loop\<close>

lemma taskStep_timed:
  assumes "parseISO dateOf (start_at t) = Some s" and "parseISO dateOf (end_at t) = Some e"
  shows "taskStep tz sub a (taskDuration dateOf t) =
     \<lparr>tMdo = jadd (tMdo a)
               (operatorTime (adjustedDuration sub (minutesBetween s e) (pauseOverlap tz t s e)) t),
      tMaq = jadd (tMaq a)
               (machineTime (adjustedDuration sub (minutesBetween s e) (pauseOverlap tz t s e)) t),
      totalRawActiveMinutes = jadd (totalRawActiveMinutes a) (Fin (minutesBetween s e)),
      prepVerify =
        (if process_type t = Some ''PREPARATION'' \<or> process_type t = Some ''QUALITY_CONTROL''
         then jadd (prepVerify a) (Fin (minutesBetween s e)) else prepVerify a),
      earliest = (case earliest a of None \<Rightarrow> Some s | Some x \<Rightarrow> if s < x then Some s else Some x),
      latest = (case latest a of None \<Rightarrow> Some e | Some x \<Rightarrow> if x < e then Some e else Some x),
      totalPauseOverlapFromTasks = jadd (totalPauseOverlapFromTasks a) (pauseOverlap tz t s e)\<rparr>"
  using assms by (simp add: taskStep_def taskDuration_def Let_def)

lemma taskStep_untimed:
  assumes "\<not> hasTimestamps dateOf t"
  shows "taskStep tz sub a (taskDuration dateOf t) = a"
  using assms
  by (auto simp: taskStep_def taskDuration_def hasTimestamps_def Let_def split: option.splits)

lemma timedTasks_untimed:
  "\<not> hasTimestamps dateOf t \<Longrightarrow> timedTasks dateOf (t # ts) = timedTasks dateOf ts"
  by (auto simp: hasTimestamps_def split: option.splits)

lemma timedTasks_timed:
  "parseISO dateOf (start_at t) = Some s \<Longrightarrow> parseISO dateOf (end_at t) = Some e \<Longrightarrow>
     timedTasks dateOf (t # ts) = (t, s, e) # timedTasks dateOf ts"
  by simp

lemma hasTimestamps_cases:
  obtains (untimed) "\<not> hasTimestamps dateOf t"
  | (timed) s e where "parseISO dateOf (start_at t) = Some s" "parseISO dateOf (end_at t) = Some e"
  by (cases "parseISO dateOf (start_at t)"; cases "parseISO dateOf (end_at t)")
     (auto simp: hasTimestamps_def)

lemma loop_tMdo:
  "tMdo (foldl (taskStep tz sub) a (map (taskDuration dateOf) ts)) =
     foldl jadd (tMdo a)
       (map (\<lambda>(t, s, e). operatorTime (adjustedDuration sub (minutesBetween s e) (pauseOverlap tz t s e)) t)
          (timedTasks dateOf ts))"
proof (induction ts arbitrary: a)
  case Nil
  show ?case by simp
next
  case (Cons t ts)
  show ?case
  proof (cases t rule: hasTimestamps_cases [of dateOf])
    case untimed
    then show ?thesis
      using Cons.IH [of a] by (simp add: taskStep_untimed timedTasks_untimed del: timedTasks.simps)
  next
    case (timed s e)
    show ?thesis
      using Cons.IH [of "taskStep tz sub a (taskDuration dateOf t)"]
      by (simp add: timedTasks_timed [OF timed] taskStep_timed [OF timed] del: timedTasks.simps)
  qed
qed

lemma loop_pause:
  "totalPauseOverlapFromTasks (foldl (taskStep tz sub) a (map (taskDuration dateOf) ts)) =
     foldl jadd (totalPauseOverlapFromTasks a)
       (map (\<lambda>(t, s, e). pauseOverlap tz t s e) (timedTasks dateOf ts))"
proof (induction ts arbitrary: a)
  case Nil
  show ?case by simp
next
  case (Cons t ts)
  show ?case
  proof (cases t rule: hasTimestamps_cases [of dateOf])
    case untimed
    then show ?thesis
      using Cons.IH [of a] by (simp add: taskStep_untimed timedTasks_untimed del: timedTasks.simps)
  next
    case (timed s e)
    show ?thesis
      using Cons.IH [of "taskStep tz sub a (taskDuration dateOf t)"]
      by (simp add: timedTasks_timed [OF timed] taskStep_timed [OF timed] del: timedTasks.simps)
  qed
qed

lemma loop_filter:
  "foldl (taskStep tz sub) a (map (taskDuration dateOf) (filter (hasTimestamps dateOf) ts)) =
   foldl (taskStep tz sub) a (map (taskDuration dateOf) ts)"
  by (induction ts arbitrary: a) (simp_all add: taskStep_untimed)

lemma adjustedDuration_cases:
  "adjustedDuration sub d p =
     jmax (Fin 0) (if sub then jsub (Fin d) p else Fin d)"
  by (simp add: adjustedDuration_def jsub_def)

lemma metrics_nonempty:
  "ts \<noteq> [] \<Longrightarrow>
   metrics dateOf tz (Some ts) order operation =
     (let a = foldl (taskStep tz (getOperationMachineType operation = Some ''CONVENTIONAL''))
                initialAggregates (map (taskDuration dateOf) ts)
      in \<lparr>totalTasks = length ts,
          tMdoMinutes = jsub (tMdo a) (totalPauseOverlapFromTasks a),
          tMaqMinutes = tMaq a,
          pauseMinutes = totalPauseOverlapFromTasks a,
          prepVerifyMinutes = prepVerify a,
          earliestStart = earliest a,
          latestEnd = latest a,
          perPieceMdo = map_option (\<lambda>n. jdiv (jsub (tMdo a) (totalPauseOverlapFromTasks a)) (num n)) (numPieces order),
          perPieceMaq = map_option (\<lambda>n. jdiv (tMaq a) (num n)) (numPieces order)\<rparr>)"
  by (simp add: metrics_def Let_def)

subsection \<open>Facts about the sample data\<close>

lemma parse_sample:
  "parseISO sampleDate (Some ''2024-01-01T08:00:00Z'') = Some 1704096000000"
  "parseISO sampleDate (Some ''2024-01-01T09:00:00Z'') = Some 1704099600000"
  "parseISO sampleDate (Some ''2024-01-01T10:00:00Z'') = Some 1704103200000"
  "parseISO sampleDate (Some ''2024-01-01T10:05:00Z'') = Some 1704103500000"
  "parseISO sampleDate (Some ''2024-01-01T10:10:00Z'') = Some 1704103800000"
  "parseISO sampleDate (Some ''soon'') = None"
  "parseISO sampleDate None = None"
  by (simp_all add: parseISO_def sampleDate_def)

lemma machineType_sample:
  "getOperationMachineType (Some (sampleOperation ''CNC'')) = Some ''CNC''"
  "getOperationMachineType (Some (sampleOperation ''CONVENTIONAL'')) = Some ''CONVENTIONAL''"
  by (simp_all add: getOperationMachineType_def possible_def sampleOperation_def trim_def
      toUpperCase_def toUpperChar_def isWhiteSpace_def)

lemma taskInPause_fields:
  "parseISO sampleDate (start_at taskInPause) = Some 1704103200000"
  "parseISO sampleDate (end_at taskInPause) = Some 1704103500000"
  "num_benches taskInPause = Some 1"
  "num_machines taskInPause = Some 1"
  by (simp_all add: taskInPause_def sampleTask_def parse_sample)

lemma taskInPause_pause: "pauseOverlap 0 taskInPause 1704103200000 1704103500000 = Fin 5"
  by (simp add: pauseOverlap_def sumPause_sample_5 taskInPause_fields orElse_def num_def)

lemma taskInPause_operatorTime: "operatorTime (Fin d) taskInPause = Fin d"
  by (simp add: operatorTime_def numMachines_def numOperators_def taskInPause_fields orElse_def
      num_def)

lemma minutes_sample: "minutesBetween 1704103200000 1704103500000 = 5"
  by (simp add: minutesBetween_def)

lemma untimed_sample:
  "\<not> hasTimestamps sampleDate taskNoEnd" "\<not> hasTimestamps sampleDate taskBadStart"
  "hasTimestamps sampleDate taskInPause"
  by (simp_all add: hasTimestamps_def taskNoEnd_def taskBadStart_def sampleTask_def parse_sample
      taskInPause_fields)

subsection \<open>Operator minutes and the pause total\<close>

text \<open>
  Claim C1. The operator-minutes total is the sum of the per-task operator times minus
  the pause-minutes total, and the pause-minutes total is the sum of the per-task pause
  overlaps. This subtraction after the loop is made for every machine type. It comes in
  addition to the subtraction inside the per-task adjusted duration, which is made only
  when the machine type is \<open>CONVENTIONAL\<close>: for any other machine type, and for none,
  the adjusted duration is the raw duration clamped at \<open>0\<close>.
\<close>

theorem operator_minutes_minus_pause_total:
  "tMdoMinutes (metrics dateOf tz (Some ts) order operation) =
     jsub
       (jsum (map (\<lambda>(t, s, e).
                operatorTime
                  (jmax (Fin 0)
                     (if getOperationMachineType operation = Some ''CONVENTIONAL''
                      then jsub (Fin (minutesBetween s e)) (pauseOverlap tz t s e)
                      else Fin (minutesBetween s e))) t)
             (timedTasks dateOf ts)))
       (jsum (map (\<lambda>(t, s, e). pauseOverlap tz t s e) (timedTasks dateOf ts)))
   \<and> pauseMinutes (metrics dateOf tz (Some ts) order operation) =
       jsum (map (\<lambda>(t, s, e). pauseOverlap tz t s e) (timedTasks dateOf ts))"
proof (cases "ts = []")
  case True
  then show ?thesis
    by (simp add: metrics_def emptyMetrics_def jsum_def jsub_def)
next
  case False
  then show ?thesis
    by (simp add: metrics_nonempty Let_def loop_tMdo loop_pause jsum_def initialAggregates_def
        adjustedDuration_cases)
qed

theorem operator_minutes_minus_pause_total_witness:
  "tMdoMinutes (metrics sampleDate 0 (Some [taskInPause]) None (Some (sampleOperation ''CNC'')))
     = Fin 0
   \<and> pauseMinutes (metrics sampleDate 0 (Some [taskInPause]) None (Some (sampleOperation ''CNC'')))
     = Fin 5"
proof -
  have t: "timedTasks sampleDate [taskInPause] = [(taskInPause, 1704103200000, 1704103500000)]"
    by (simp add: taskInPause_fields)
  note inst = operator_minutes_minus_pause_total [of sampleDate 0 "[taskInPause]" None
      "Some (sampleOperation ''CNC'')"]
  show ?thesis
    by (simp add: inst t machineType_sample taskInPause_pause taskInPause_operatorTime
        minutes_sample jsum_def jsub_def del: timedTasks.simps)
qed

subsection \<open>Tasks without timestamps\<close>

text \<open>
  Claim C6. A task whose \<^verbatim>\<open>start_at\<close> or \<^verbatim>\<open>end_at\<close> is absent or does not parse is
  left out of every duration-based aggregate: operator minutes, machine minutes, pause
  minutes, preparation/verification minutes, earliest start and latest end are those of
  the task list with all such tasks removed. It is still counted: \<open>totalTasks\<close> is the
  length of the whole task list.
\<close>

theorem untimed_tasks_excluded_but_counted:
  "tMdoMinutes (metrics dateOf tz (Some ts) order operation) =
     tMdoMinutes (metrics dateOf tz (Some (filter (hasTimestamps dateOf) ts)) order operation)
   \<and> tMaqMinutes (metrics dateOf tz (Some ts) order operation) =
     tMaqMinutes (metrics dateOf tz (Some (filter (hasTimestamps dateOf) ts)) order operation)
   \<and> pauseMinutes (metrics dateOf tz (Some ts) order operation) =
     pauseMinutes (metrics dateOf tz (Some (filter (hasTimestamps dateOf) ts)) order operation)
   \<and> prepVerifyMinutes (metrics dateOf tz (Some ts) order operation) =
     prepVerifyMinutes (metrics dateOf tz (Some (filter (hasTimestamps dateOf) ts)) order operation)
   \<and> earliestStart (metrics dateOf tz (Some ts) order operation) =
     earliestStart (metrics dateOf tz (Some (filter (hasTimestamps dateOf) ts)) order operation)
   \<and> latestEnd (metrics dateOf tz (Some ts) order operation) =
     latestEnd (metrics dateOf tz (Some (filter (hasTimestamps dateOf) ts)) order operation)
   \<and> totalTasks (metrics dateOf tz (Some ts) order operation) = length ts"
proof (cases "ts = []")
  case True
  then show ?thesis by (simp add: metrics_def emptyMetrics_def)
next
  case False
  note ne = this
  show ?thesis
  proof (cases "filter (hasTimestamps dateOf) ts = []")
    case True
    have "foldl (taskStep tz sub) initialAggregates (map (taskDuration dateOf) ts) = initialAggregates"
      for sub
      using loop_filter [of tz sub initialAggregates dateOf ts] by (simp add: True)
    then show ?thesis
      using ne
      by (simp add: metrics_nonempty [OF ne] True metrics_def emptyMetrics_def
          initialAggregates_def jsub_def Let_def)
  next
    case False
    show ?thesis
      by (simp add: metrics_nonempty [OF ne] metrics_nonempty [OF False] loop_filter Let_def)
  qed
qed

theorem untimed_tasks_excluded_but_counted_witness:
  "filter (hasTimestamps sampleDate) [taskNoEnd, taskInPause, taskBadStart] = [taskInPause]
   \<and> pauseMinutes (metrics sampleDate 0 (Some [taskNoEnd, taskInPause, taskBadStart]) None
        (Some (sampleOperation ''CNC'')))
     = pauseMinutes (metrics sampleDate 0 (Some [taskInPause]) None (Some (sampleOperation ''CNC'')))
   \<and> totalTasks (metrics sampleDate 0 (Some [taskNoEnd, taskInPause, taskBadStart]) None
        (Some (sampleOperation ''CNC''))) = 3"
proof -
  have f: "filter (hasTimestamps sampleDate) [taskNoEnd, taskInPause, taskBadStart] = [taskInPause]"
    by (simp add: untimed_sample)
  note inst = untimed_tasks_excluded_but_counted [of sampleDate 0
      "[taskNoEnd, taskInPause, taskBadStart]" None "Some (sampleOperation ''CNC'')"]
  have "pauseMinutes (metrics sampleDate 0 (Some [taskNoEnd, taskInPause, taskBadStart]) None
        (Some (sampleOperation ''CNC'')))
     = pauseMinutes (metrics sampleDate 0 (Some [taskInPause]) None (Some (sampleOperation ''CNC'')))"
    using inst by (simp only: f)
  moreover have "totalTasks (metrics sampleDate 0 (Some [taskNoEnd, taskInPause, taskBadStart]) None
        (Some (sampleOperation ''CNC''))) = 3"
    using inst by (simp only: list.size)
  ultimately show ?thesis
    using f by (simp only: simp_thms)
qed

subsection \<open>Negative operator minutes\<close>

text \<open>
  Claim C8. Operator minutes can be negative. For an operation whose machine type is
  \<open>CONVENTIONAL\<close> and a single task with one bench and one machine whose interval has
  a positive duration equal to its pause overlap (it lies inside a pause window), the
  adjusted duration is clamped to \<open>0\<close>, the subtraction after the loop still takes
  place, and the operator-minutes total is minus the duration, below \<open>0\<close>. The task
  from 10:00 to 10:05 is such an input, with a total of \<open>-5\<close>.
\<close>

theorem operator_minutes_negative:
  assumes conv: "getOperationMachineType operation = Some ''CONVENTIONAL''"
    and counts: "num_benches t = Some 1" "num_machines t = Some 1"
    and timed: "parseISO dateOf (start_at t) = Some s" "parseISO dateOf (end_at t) = Some e"
    and pos: "0 < minutesBetween s e"
    and inside: "sumPauseOverlapBetween tz s e = minutesBetween s e"
  shows "adjustedDuration True (minutesBetween s e) (pauseOverlap tz t s e) = Fin 0
       \<and> tMdoMinutes (metrics dateOf tz (Some [t]) order operation) = Fin (- minutesBetween s e)
       \<and> jlt (tMdoMinutes (metrics dateOf tz (Some [t]) order operation)) (Fin 0)"
proof -
  have p: "pauseOverlap tz t s e = Fin (minutesBetween s e)"
    by (simp add: pauseOverlap_def counts inside orElse_def num_def)
  have adj: "adjustedDuration True (minutesBetween s e) (Fin (minutesBetween s e)) = Fin 0"
    by (simp add: adjustedDuration_def jsub_def)
  have ot: "operatorTime (Fin 0) t = Fin 0"
    by (simp add: operatorTime_def numMachines_def numOperators_def counts orElse_def num_def)
  have step: "tMdo (taskStep tz True initialAggregates (taskDuration dateOf t)) = Fin 0"
    "totalPauseOverlapFromTasks (taskStep tz True initialAggregates (taskDuration dateOf t))
       = Fin (minutesBetween s e)"
    by (simp_all add: taskStep_timed [OF timed] p adj ot initialAggregates_def)
  have "tMdoMinutes (metrics dateOf tz (Some [t]) order operation) = Fin (- minutesBetween s e)"
    by (simp add: metrics_nonempty Let_def conv step jsub_def)
  then show ?thesis
    using pos by (simp add: p adj)
qed

theorem operator_minutes_negative_witness:
  "getOperationMachineType (Some (sampleOperation ''CONVENTIONAL'')) = Some ''CONVENTIONAL''
   \<and> 0 < minutesBetween 1704103200000 1704103500000
   \<and> sumPauseOverlapBetween 0 1704103200000 1704103500000 = minutesBetween 1704103200000 1704103500000
   \<and> tMdoMinutes (metrics sampleDate 0 (Some [taskInPause]) None
        (Some (sampleOperation ''CONVENTIONAL''))) = Fin (- 5)
   \<and> jlt (tMdoMinutes (metrics sampleDate 0 (Some [taskInPause]) None
        (Some (sampleOperation ''CONVENTIONAL'')))) (Fin 0)"
proof -
  have pos: "0 < minutesBetween 1704103200000 1704103500000"
    by (simp add: minutes_sample)
  have inside: "sumPauseOverlapBetween 0 1704103200000 1704103500000
                  = minutesBetween 1704103200000 1704103500000"
    by (simp add: minutes_sample sumPause_sample_5)
  note inst = operator_minutes_negative [OF machineType_sample(2) taskInPause_fields(3,4,1,2)
      pos inside, of None]
  show ?thesis
    using inst pos inside by (simp add: machineType_sample minutes_sample)
qed

subsection \<open>Facts about the machine type\<close>

lemma fieldText_simps:
  "fieldText None = []"
  "fieldText (Some x) = toUpperCase (trim x)"
  "toUpperCase (trim []) = []"
  by (simp_all add: fieldText_def trim_def toUpperCase_def)

lemma firstMachineType_find:
  "firstMachineType vs = List.find (\<lambda>s. s \<noteq> []) (map fieldText vs)"
proof (induction vs)
  case Nil
  show ?case by simp
next
  case (Cons v vs)
  show ?case
  proof (cases v)
    case None
    then show ?thesis using Cons.IH by (simp add: fieldText_simps)
  next
    case (Some x)
    then show ?thesis
      using Cons.IH by (cases "x = []") (simp_all add: fieldText_simps Let_def)
  qed
qed

lemma letters_upper_idem:
  "list_all (\<lambda>d. toUpperChar (toUpperChar d) = toUpperChar d) ''conventional''"
  by (simp add: toUpperChar_def)

lemma letters_no_space:
  "list_all (\<lambda>d. \<not> isWhiteSpace d \<and> \<not> isWhiteSpace (toUpperChar d)) ''conventional''"
  by (simp add: toUpperChar_def isWhiteSpace_def)

lemma letters_upper: "map toUpperChar ''conventional'' = ''CONVENTIONAL''"
  by (simp add: toUpperChar_def)

lemma sameLetters_upper:
  "list_all2 (\<lambda>c d. c = d \<or> c = toUpperChar d) x w \<Longrightarrow>
   list_all (\<lambda>d. toUpperChar (toUpperChar d) = toUpperChar d) w \<Longrightarrow>
   map toUpperChar x = map toUpperChar w"
proof (induction x w rule: list_all2_induct)
  case Nil
  show ?case by simp
next
  case (Cons c x d w)
  from Cons.prems have idem: "toUpperChar (toUpperChar d) = toUpperChar d"
    and rest: "list_all (\<lambda>d. toUpperChar (toUpperChar d) = toUpperChar d) w"
    by simp_all
  from Cons.hyps(1) idem have "toUpperChar c = toUpperChar d"
    by (elim disjE) simp_all
  with Cons.IH [OF rest] show ?case
    by simp
qed

lemma sameLetters_no_space:
  "list_all2 (\<lambda>c d. c = d \<or> c = toUpperChar d) x w \<Longrightarrow>
   list_all (\<lambda>d. \<not> isWhiteSpace d \<and> \<not> isWhiteSpace (toUpperChar d)) w \<Longrightarrow>
   list_all (\<lambda>c. \<not> isWhiteSpace c) x"
proof (induction x w rule: list_all2_induct)
  case Nil
  show ?case by simp
next
  case (Cons c x d w)
  from Cons.prems have here: "\<not> isWhiteSpace d" "\<not> isWhiteSpace (toUpperChar d)"
    and rest: "list_all (\<lambda>d. \<not> isWhiteSpace d \<and> \<not> isWhiteSpace (toUpperChar d)) w"
    by simp_all
  from Cons.hyps(1) here have "\<not> isWhiteSpace c"
    by (elim disjE) simp_all
  with Cons.IH [OF rest] show ?case
    by simp
qed

lemma dropWhile_none: "list_all (\<lambda>c. \<not> P c) x \<Longrightarrow> dropWhile P x = x"
  by (cases x) simp_all

lemma trim_no_space:
  assumes "list_all (\<lambda>c. \<not> isWhiteSpace c) x"
  shows "trim x = x"
proof -
  have "list_all (\<lambda>c. \<not> isWhiteSpace c) (rev x)"
    using assms by simp
  then have "dropWhile isWhiteSpace (rev x) = rev x"
    by (rule dropWhile_none)
  then show ?thesis
    by (simp add: trim_def dropWhile_none [OF assms])
qed

lemma fieldText_conventional:
  assumes "sameLetters x ''conventional''"
  shows "fieldText (Some x) = ''CONVENTIONAL''"
proof -
  have l: "list_all2 (\<lambda>c d. c = d \<or> c = toUpperChar d) x ''conventional''"
    using assms by (simp only: sameLetters_def)
  have "list_all (\<lambda>c. \<not> isWhiteSpace c) x"
    by (rule sameLetters_no_space [OF l letters_no_space])
  then have "trim x = x"
    by (rule trim_no_space)
  moreover have "map toUpperChar x = map toUpperChar ''conventional''"
    by (rule sameLetters_upper [OF l letters_upper_idem])
  ultimately show ?thesis
    by (simp only: fieldText_def toUpperCase_def option.case letters_upper)
qed

lemma metrics_machine_type:
  assumes "(getOperationMachineType op1 = Some ''CONVENTIONAL'')
         = (getOperationMachineType op2 = Some ''CONVENTIONAL'')"
  shows "metrics dateOf tz tasks order op1 = metrics dateOf tz tasks order op2"
proof (cases "getOperationMachineType op1 = Some ''CONVENTIONAL''")
  case True
  with assms have "getOperationMachineType op2 = Some ''CONVENTIONAL''"
    by simp
  with True show ?thesis
    by (cases tasks) (simp_all add: metrics_def Let_def)
next
  case False
  with assms have "getOperationMachineType op2 \<noteq> Some ''CONVENTIONAL''"
    by simp
  with False show ?thesis
    by (cases tasks) (simp_all add: metrics_def Let_def)
qed

subsection \<open>Which field gives the machine type\<close>

text \<open>
  Claim C10, as amended. The machine-type string is the trimmed, upper-cased text of the
  first of the four fields \<^verbatim>\<open>machine_type\<close>, \<^verbatim>\<open>machine.type\<close>, \<^verbatim>\<open>type\<close>,
  \<^verbatim>\<open>operation_type\<close>, in this order, whose trimmed text is not empty, and \<^verbatim>\<open>null\<close> if
  there is none: \<^verbatim>\<open>machine_type\<close> wins over the three others, \<^verbatim>\<open>machine.type\<close> over
  \<^verbatim>\<open>type\<close> and \<^verbatim>\<open>operation_type\<close>, and \<^verbatim>\<open>type\<close> over \<^verbatim>\<open>operation_type\<close>. So for an
  operation with no machine-type field (\<^verbatim>\<open>machine_type\<close> absent or blank, and the machine
  absent or its \<^verbatim>\<open>type\<close> absent or blank), pauses are subtracted per task (the machine
  type is \<open>CONVENTIONAL\<close>, and the metrics are those of an operation whose
  \<^verbatim>\<open>machine_type\<close> is \<open>CONVENTIONAL\<close>) when \<^verbatim>\<open>type\<close> is \<open>conventional\<close> in any letter
  case, or when \<^verbatim>\<open>type\<close> is blank and \<^verbatim>\<open>operation_type\<close> is \<open>conventional\<close> in any
  letter case.
\<close>

theorem machine_type_first_nonblank_field:
  "getOperationMachineType (Some opn) =
     (if \<not> blank (machine_type opn) then Some (fieldText (machine_type opn))
      else if \<not> blank (case machine opn of None \<Rightarrow> None | Some m \<Rightarrow> m_type m)
        then Some (fieldText (case machine opn of None \<Rightarrow> None | Some m \<Rightarrow> m_type m))
      else if \<not> blank (op_type opn) then Some (fieldText (op_type opn))
      else if \<not> blank (operation_type opn) then Some (fieldText (operation_type opn))
      else None)
   \<and> (blank (machine_type opn)
        \<and> blank (case machine opn of None \<Rightarrow> None | Some m \<Rightarrow> m_type m)
        \<and> sameLetters x ''conventional''
        \<and> (op_type opn = Some x \<or> blank (op_type opn) \<and> operation_type opn = Some x)
      \<longrightarrow> getOperationMachineType (Some opn) = Some ''CONVENTIONAL''
          \<and> metrics dateOf tz tasks order (Some opn) =
              metrics dateOf tz tasks order (Some (sampleOperation ''CONVENTIONAL'')))"
proof -
  have first: "getOperationMachineType (Some opn) =
     (if \<not> blank (machine_type opn) then Some (fieldText (machine_type opn))
      else if \<not> blank (case machine opn of None \<Rightarrow> None | Some m \<Rightarrow> m_type m)
        then Some (fieldText (case machine opn of None \<Rightarrow> None | Some m \<Rightarrow> m_type m))
      else if \<not> blank (op_type opn) then Some (fieldText (op_type opn))
      else if \<not> blank (operation_type opn) then Some (fieldText (operation_type opn))
      else None)"
    by (simp add: getOperationMachineType_def firstMachineType_find possible_def blank_def)
  have conv: "getOperationMachineType (Some opn) = Some ''CONVENTIONAL''"
    if none: "blank (machine_type opn)"
        "blank (case machine opn of None \<Rightarrow> None | Some m \<Rightarrow> m_type m)"
      and x: "sameLetters x ''conventional''"
      and field: "op_type opn = Some x \<or> blank (op_type opn) \<and> operation_type opn = Some x"
  proof -
    have t: "fieldText (Some x) = ''CONVENTIONAL''" and nb: "\<not> blank (Some x)"
      by (simp_all add: blank_def fieldText_conventional [OF x])
    from field show ?thesis
    proof
      assume "op_type opn = Some x"
      then show ?thesis
        by (simp only: first none t nb simp_thms if_True if_False)
    next
      assume "blank (op_type opn) \<and> operation_type opn = Some x"
      then have "blank (op_type opn)" and "operation_type opn = Some x"
        by simp_all
      then show ?thesis
        by (simp only: first none t nb simp_thms if_True if_False)
    qed
  qed
  have sample: "getOperationMachineType (Some (sampleOperation ''CONVENTIONAL'')) = Some ''CONVENTIONAL''"
    by (rule machineType_sample)
  have same: "metrics dateOf tz tasks order (Some opn) =
                metrics dateOf tz tasks order (Some (sampleOperation ''CONVENTIONAL''))"
    if "getOperationMachineType (Some opn) = Some ''CONVENTIONAL''"
    by (rule metrics_machine_type) (simp add: that sample)
  show ?thesis
  proof (intro conjI impI)
    show "getOperationMachineType (Some opn) =
     (if \<not> blank (machine_type opn) then Some (fieldText (machine_type opn))
      else if \<not> blank (case machine opn of None \<Rightarrow> None | Some m \<Rightarrow> m_type m)
        then Some (fieldText (case machine opn of None \<Rightarrow> None | Some m \<Rightarrow> m_type m))
      else if \<not> blank (op_type opn) then Some (fieldText (op_type opn))
      else if \<not> blank (operation_type opn) then Some (fieldText (operation_type opn))
      else None)"
      by (rule first)
  next
    assume a: "blank (machine_type opn)
        \<and> blank (case machine opn of None \<Rightarrow> None | Some m \<Rightarrow> m_type m)
        \<and> sameLetters x ''conventional''
        \<and> (op_type opn = Some x \<or> blank (op_type opn) \<and> operation_type opn = Some x)"
    then show c: "getOperationMachineType (Some opn) = Some ''CONVENTIONAL''"
      using conv by (elim conjE)
    show "metrics dateOf tz tasks order (Some opn) =
            metrics dateOf tz tasks order (Some (sampleOperation ''CONVENTIONAL''))"
      by (rule same [OF c])
  qed
qed

lemma blank_None: "blank None"
  by (simp add: blank_def fieldText_def)

theorem machine_type_first_nonblank_field_witness:
  "sameLetters ''Conventional'' ''conventional''
   \<and> op_type operationTyped = Some ''Conventional''
   \<and> getOperationMachineType (Some operationTyped) = Some ''CONVENTIONAL''
   \<and> sameLetters ''conventional'' ''conventional''
   \<and> blank (op_type operationBlankType)
   \<and> operation_type operationBlankType = Some ''conventional''
   \<and> getOperationMachineType (Some operationBlankType) = Some ''CONVENTIONAL''
   \<and> machine operationMachineNoType = Some \<lparr>m_type = None\<rparr>
   \<and> op_type operationMachineNoType = Some ''conventional''
   \<and> getOperationMachineType (Some operationMachineNoType) = Some ''CONVENTIONAL''
   \<and> getOperationMachineType (Some operationCncMachineType) = Some ''CNC''"
proof -
  have a: "sameLetters ''Conventional'' ''conventional''"
    by (simp add: sameLetters_def toUpperChar_def)
  have b: "sameLetters ''conventional'' ''conventional''"
    by (simp add: sameLetters_def)
  have c: "blank (op_type operationBlankType)"
    by (simp add: blank_def fieldText_def operationBlankType_def trim_def toUpperCase_def
        isWhiteSpace_def)
  have typed: "blank (machine_type operationTyped)"
    "blank (case machine operationTyped of None \<Rightarrow> None | Some m \<Rightarrow> m_type m)"
    "op_type operationTyped = Some ''Conventional''"
    by (simp_all add: operationTyped_def blank_None)
  have blank: "blank (machine_type operationBlankType)"
    "blank (case machine operationBlankType of None \<Rightarrow> None | Some m \<Rightarrow> m_type m)"
    "operation_type operationBlankType = Some ''conventional''"
    by (simp_all add: operationBlankType_def blank_None)
  have noType: "blank (machine_type operationMachineNoType)"
    "blank (case machine operationMachineNoType of None \<Rightarrow> None | Some m \<Rightarrow> m_type m)"
    "op_type operationMachineNoType = Some ''conventional''"
    "machine operationMachineNoType = Some \<lparr>m_type = None\<rparr>"
    by (simp_all add: operationMachineNoType_def blank_None)
  have cnc: "\<not> blank (machine_type operationCncMachineType)"
    "fieldText (machine_type operationCncMachineType) = ''CNC''"
    by (simp_all add: operationCncMachineType_def blank_def fieldText_def trim_def
        toUpperCase_def toUpperChar_def isWhiteSpace_def)
  note inst1 = machine_type_first_nonblank_field [of operationTyped "''Conventional''",
      THEN conjunct2, rule_format, THEN conjunct1]
  note inst2 = machine_type_first_nonblank_field [of operationBlankType "''conventional''",
      THEN conjunct2, rule_format, THEN conjunct1]
  note inst3 = machine_type_first_nonblank_field [of operationMachineNoType "''conventional''",
      THEN conjunct2, rule_format, THEN conjunct1]
  note inst4 = machine_type_first_nonblank_field [of operationCncMachineType, THEN conjunct1]
  have r1: "getOperationMachineType (Some operationTyped) = Some ''CONVENTIONAL''"
    by (rule inst1) (intro conjI disjI1 typed a)
  have r2: "getOperationMachineType (Some operationBlankType) = Some ''CONVENTIONAL''"
    by (rule inst2) (intro conjI disjI2 blank b c)
  have r3: "getOperationMachineType (Some operationMachineNoType) = Some ''CONVENTIONAL''"
    by (rule inst3) (intro conjI disjI1 noType b)
  have r4: "getOperationMachineType (Some operationCncMachineType) = Some ''CNC''"
    by (simp only: inst4 cnc simp_thms if_True)
  show ?thesis
    by (intro conjI a b c typed(3) blank(3) noType(3,4) r1 r2 r3 r4)
qed

text \<open>
  The claim as first stated fails: \<^verbatim>\<open>operation_type\<close> is not consulted when
  \<^verbatim>\<open>type\<close> has text. An operation with no machine-type field, \<^verbatim>\<open>type\<close> \<open>CNC\<close> and
  \<^verbatim>\<open>operation_type\<close> \<open>conventional\<close> has machine type \<open>CNC\<close>, and pauses are not
  subtracted per task.
\<close>

theorem operation_type_not_consulted_counterexample:
  "machine_type operationCncType = None \<and> machine operationCncType = None
   \<and> operation_type operationCncType = Some ''conventional''
   \<and> sameLetters ''conventional'' ''conventional''
   \<and> getOperationMachineType (Some operationCncType) = Some ''CNC''
   \<and> getOperationMachineType (Some operationCncType) \<noteq> Some ''CONVENTIONAL''"
proof -
  have "getOperationMachineType (Some operationCncType) = Some ''CNC''"
    by (simp add: getOperationMachineType_def possible_def operationCncType_def trim_def
        toUpperCase_def toUpperChar_def isWhiteSpace_def)
  moreover have "sameLetters ''conventional'' ''conventional''"
    by (simp add: sameLetters_def)
  ultimately show ?thesis
    by (simp add: operationCncType_def)
qed

subsection \<open>Stored counts of zero\<close>

lemma taskZeroBenchesInPause_fields:
  "parseISO sampleDate (start_at taskZeroBenchesInPause) = Some 1704103200000"
  "parseISO sampleDate (end_at taskZeroBenchesInPause) = Some 1704103800000"
  "num_benches taskZeroBenchesInPause = Some 0"
  "num_machines taskZeroBenchesInPause = Some 1"
  by (simp_all add: taskZeroBenchesInPause_def sampleTask_def parse_sample)

lemma taskZeroBenches_fields:
  "parseISO sampleDate (start_at taskZeroBenches) = Some 1704096000000"
  "parseISO sampleDate (end_at taskZeroBenches) = Some 1704099600000"
  "num_benches taskZeroBenches = Some 0"
  "num_machines taskZeroBenches = Some 1"
  by (simp_all add: taskZeroBenches_def sampleTask_def parse_sample)

lemma taskZeroBenchesReversed_fields:
  "parseISO sampleDate (start_at taskZeroBenchesReversed) = Some 1704099600000"
  "parseISO sampleDate (end_at taskZeroBenchesReversed) = Some 1704096000000"
  "num_benches taskZeroBenchesReversed = Some 0"
  "num_machines taskZeroBenchesReversed = Some 1"
  by (simp_all add: taskZeroBenchesReversed_def sampleTask_def parse_sample)

lemma jadd_NaN: "jadd x NaN = NaN" "jadd NaN x = NaN"
  by (cases x; simp)+

lemma metrics_single:
  assumes "parseISO dateOf (start_at t) = Some s" and "parseISO dateOf (end_at t) = Some e"
  shows "pauseMinutes (metrics dateOf tz (Some [t]) order operation) = pauseOverlap tz t s e"
    and "tMdoMinutes (metrics dateOf tz (Some [t]) order operation) =
           jsub (operatorTime
                   (adjustedDuration (getOperationMachineType operation = Some ''CONVENTIONAL'')
                      (minutesBetween s e) (pauseOverlap tz t s e)) t)
                (pauseOverlap tz t s e)"
    and "tMaqMinutes (metrics dateOf tz (Some [t]) order operation) =
           machineTime
             (adjustedDuration (getOperationMachineType operation = Some ''CONVENTIONAL'')
                (minutesBetween s e) (pauseOverlap tz t s e)) t"
proof -
  have z: "jadd (Fin 0) x = x" for x
    by (cases x) simp_all
  show "pauseMinutes (metrics dateOf tz (Some [t]) order operation) = pauseOverlap tz t s e"
    by (simp add: metrics_nonempty Let_def taskStep_timed [OF assms] initialAggregates_def z)
  show "tMdoMinutes (metrics dateOf tz (Some [t]) order operation) =
           jsub (operatorTime
                   (adjustedDuration (getOperationMachineType operation = Some ''CONVENTIONAL'')
                      (minutesBetween s e) (pauseOverlap tz t s e)) t)
                (pauseOverlap tz t s e)"
    by (simp add: metrics_nonempty Let_def taskStep_timed [OF assms] initialAggregates_def z)
  show "tMaqMinutes (metrics dateOf tz (Some [t]) order operation) =
           machineTime
             (adjustedDuration (getOperationMachineType operation = Some ''CONVENTIONAL'')
                (minutesBetween s e) (pauseOverlap tz t s e)) t"
    by (simp add: metrics_nonempty Let_def taskStep_timed [OF assms] initialAggregates_def z)
qed

text \<open>
  Claim C2 fails on the code. The pause overlap of a task is the calculator's result
  divided by \<^verbatim>\<open>num_benches ?? 1\<close> and by \<^verbatim>\<open>num_machines ?? 1\<close>: a stored count of
  zero is the divisor, where the operator-time and machine-time formulas a few lines
  below use \<^verbatim>\<open>Math.max(1, ...)\<close>. For the task from 10:00 to 10:10 stored with zero
  benches the calculator gives \<open>10\<close> minutes and the claimed overlap is \<open>10\<close>, but
  the overlap computed, and with it the pause-minutes output, is \<open>+Infinity\<close>.
\<close>

theorem pause_overlap_zero_benches_infinite:
  "sumPauseOverlapBetween 0 1704103200000 1704103800000 = 10
   \<and> pauseOverlapSpec 0 taskZeroBenchesInPause 1704103200000 1704103800000 = Fin 10
   \<and> pauseOverlap 0 taskZeroBenchesInPause 1704103200000 1704103800000 = PInf
   \<and> \<not> isFinite (pauseOverlap 0 taskZeroBenchesInPause 1704103200000 1704103800000)
   \<and> pauseMinutes (metrics sampleDate 0 (Some [taskZeroBenchesInPause]) None
        (Some (sampleOperation ''CNC''))) = PInf"
proof -
  have p: "pauseOverlap 0 taskZeroBenchesInPause 1704103200000 1704103800000 = PInf"
    by (simp add: pauseOverlap_def sumPause_sample_10 taskZeroBenchesInPause_fields orElse_def
        num_def)
  have q: "pauseOverlapSpec 0 taskZeroBenchesInPause 1704103200000 1704103800000 = Fin 10"
    by (simp add: pauseOverlapSpec_def sumPause_sample_10 taskZeroBenchesInPause_fields orElse_def)
  show ?thesis
    by (simp add: metrics_single(1) [OF taskZeroBenchesInPause_fields(1,2)] p q sumPause_sample_10)
qed

text \<open>
  Claim C3 fails on the code at a stored count of zero, by the same division as in C2.
  For the task from 08:00 to 09:00 stored with zero benches the calculator gives \<open>0\<close>,
  the per-task overlap is \<open>0 / 0 = NaN\<close>, and the operator-minutes total is \<open>NaN\<close>
  with machine type \<open>CONVENTIONAL\<close> and with machine type \<open>CNC\<close>: the first is not
  less than or equal to the second. (Where every stored count is absent or at least
  \<open>1\<close> the claim holds: \<open>conventional_le_cnc_counts_ok\<close> below.)
\<close>

theorem conventional_not_le_cnc_zero_benches:
  "sumPauseOverlapBetween 0 1704096000000 1704099600000 = 0
   \<and> tMdoMinutes (metrics sampleDate 0 (Some [taskZeroBenches]) None
        (Some (sampleOperation ''CONVENTIONAL''))) = NaN
   \<and> tMdoMinutes (metrics sampleDate 0 (Some [taskZeroBenches]) None
        (Some (sampleOperation ''CNC''))) = NaN
   \<and> \<not> jle (tMdoMinutes (metrics sampleDate 0 (Some [taskZeroBenches]) None
               (Some (sampleOperation ''CONVENTIONAL''))))
            (tMdoMinutes (metrics sampleDate 0 (Some [taskZeroBenches]) None
               (Some (sampleOperation ''CNC''))))"
proof -
  have p: "pauseOverlap 0 taskZeroBenches 1704096000000 1704099600000 = NaN"
    by (simp add: pauseOverlap_def sumPause_sample_0 taskZeroBenches_fields orElse_def num_def)
  have a: "tMdoMinutes (metrics sampleDate 0 (Some [taskZeroBenches]) None
        (Some (sampleOperation ''CONVENTIONAL''))) = NaN"
    by (simp add: metrics_single(2) [OF taskZeroBenches_fields(1,2)] p jsub_def jadd_NaN)
  have b: "tMdoMinutes (metrics sampleDate 0 (Some [taskZeroBenches]) None
        (Some (sampleOperation ''CNC''))) = NaN"
    by (simp add: metrics_single(2) [OF taskZeroBenches_fields(1,2)] p jsub_def jadd_NaN)
  show ?thesis
    by (simp add: a b sumPause_sample_0)
qed

text \<open>
  Claim C7 fails on the code at a stored count of zero, by the same division as in C2.
  For the task from 09:00 back to 08:00 stored with zero benches the duration is clamped
  to \<open>0\<close> and the calculator gives \<open>0\<close>, but the per-task overlap is \<open>0 / 0 = NaN\<close>:
  the task contributes \<open>NaN\<close> to pause minutes and to operator minutes, and with
  machine type \<open>CONVENTIONAL\<close> to machine minutes as well. (Where the stored counts are
  absent or at least \<open>1\<close> the task contributes \<open>0\<close>: \<open>reversed_task_counts_ok\<close>
  below.)
\<close>

theorem reversed_task_zero_benches_nan:
  "minutesBetween 1704099600000 1704096000000 = 0
   \<and> sumPauseOverlapBetween 0 1704099600000 1704096000000 = 0
   \<and> pauseOverlap 0 taskZeroBenchesReversed 1704099600000 1704096000000 = NaN
   \<and> pauseMinutes (metrics sampleDate 0 (Some [taskZeroBenchesReversed]) None
        (Some (sampleOperation ''CNC''))) = NaN
   \<and> tMdoMinutes (metrics sampleDate 0 (Some [taskZeroBenchesReversed]) None
        (Some (sampleOperation ''CNC''))) = NaN
   \<and> tMaqMinutes (metrics sampleDate 0 (Some [taskZeroBenchesReversed]) None
        (Some (sampleOperation ''CONVENTIONAL''))) = NaN"
proof -
  have d: "minutesBetween 1704099600000 1704096000000 = 0"
    by (simp add: minutesBetween_def)
  have s: "sumPauseOverlapBetween 0 1704099600000 1704096000000 = 0"
    by (simp add: sumPauseOverlapBetween_def)
  have p: "pauseOverlap 0 taskZeroBenchesReversed 1704099600000 1704096000000 = NaN"
    by (simp add: pauseOverlap_def s taskZeroBenchesReversed_fields orElse_def num_def)
  have adj: "adjustedDuration True 0 NaN = NaN"
    by (simp add: adjustedDuration_def jsub_def)
  have mt: "machineTime NaN taskZeroBenchesReversed = NaN"
    by (simp add: machineTime_def)
  show ?thesis
    by (simp add: metrics_single [OF taskZeroBenchesReversed_fields(1,2)] p d s jsub_def
        machineType_sample adj mt jadd_NaN)
qed

subsection \<open>Stored counts that are absent or at least one\<close>

text \<open>For tasks whose stored counts are absent or at least \<open>1\<close> the divisors are never
  zero: the per-task pause overlap is the specification's (\<open>pause_overlap_counts_ok\<close>),
  operator minutes with machine type \<open>CONVENTIONAL\<close> are at most those with another
  machine type (\<open>conventional_le_cnc_counts_ok\<close>), equal when no task overlaps a pause
  (\<open>conventional_eq_cnc_no_overlap\<close>), and a task that ends before it starts contributes
  \<open>0\<close> (\<open>reversed_task_counts_ok\<close>).\<close>

lemma overlapMinutes_nonneg: "0 \<le> overlapMinutes a b c d"
  by (simp add: overlapMinutes_def Let_def)

lemma pauseWindows_ge: "tot \<le> pauseWindows s e cur tot pds"
proof (induction pds arbitrary: tot)
  case Nil
  show ?case by simp
next
  case (Cons pd pds)
  have "tot \<le> tot + overlapMinutes s e (atTimeOfDay cur (startH pd) (startM pd))
                      (atTimeOfDay cur (endH pd) (endM pd))"
    using overlapMinutes_nonneg by simp
  also have "\<dots> \<le> pauseWindows s e cur tot (pd # pds)"
    using Cons.IH by (simp add: Let_def)
  finally show ?case .
qed

lemma pauseDays_ge: "tot \<le> pauseDays s e cur endDay tot"
proof (induction s e cur endDay tot rule: pauseDays.induct)
  case (1 s e cur endDay tot)
  show ?case
  proof (cases "cur \<le> endDay")
    case True
    have "tot \<le> pauseWindows s e cur tot PAUSE_DEFS"
      by (rule pauseWindows_ge)
    also have "\<dots> \<le> pauseDays s e cur endDay tot"
      using "1.IH" [OF True] by (simp add: pauseDays_next [OF True])
    finally show ?thesis .
  next
    case False
    then show ?thesis by (simp add: pauseDays_stop)
  qed
qed

lemma sumPause_nonneg: "0 \<le> sumPauseOverlapBetween tz s e"
  by (simp add: sumPauseOverlapBetween_def pauseDays_ge)

lemma counts_ok_divisors:
  assumes "countsOk t"
  shows "orElse (num_benches t) 1 = numOperators t" and "orElse (num_machines t) 1 = numMachines t"
  using assms
  by (auto simp: countsOk_def countOk_def numOperators_def numMachines_def orElse_def
      split: option.splits)

lemma divisors_pos: "1 \<le> numOperators t" "1 \<le> numMachines t"
  by (simp_all add: numOperators_def numMachines_def)

lemma divisors_nonzero:
  "numOperators t \<noteq> 0" "numMachines t \<noteq> 0"
  "0 < numOperators t" "0 < numMachines t"
  "0 \<le> numOperators t" "0 \<le> numMachines t"
  using divisors_pos [of t] by simp_all

lemma pauseOverlap_counts_ok:
  assumes "countsOk t"
  shows "pauseOverlap tz t s e =
           Fin (sumPauseOverlapBetween tz s e / of_int (numOperators t) / of_int (numMachines t))"
  by (simp add: pauseOverlap_def counts_ok_divisors [OF assms] num_def divisors_nonzero)

lemma pause_overlap_counts_ok:
  assumes "countsOk t"
  shows "pauseOverlap tz t s e = pauseOverlapSpec tz t s e"
  by (simp add: pauseOverlap_counts_ok [OF assms] pauseOverlapSpec_def numOperators_def
      numMachines_def)

lemma operatorTime_Fin:
  "operatorTime (Fin a) t = Fin (a / of_int (numMachines t) / of_int (numOperators t))"
  by (simp add: operatorTime_def num_def divisors_nonzero)

lemma machineTime_Fin: "machineTime (Fin a) t = Fin (a / of_int (numOperators t))"
  by (simp add: machineTime_def num_def divisors_nonzero)

lemma adjustedDuration_Fin:
  "adjustedDuration sub d (Fin p) = Fin (max 0 (if sub then d - p else d))"
  by (simp add: adjustedDuration_def jsub_def)

text \<open>The relation between the aggregates of the loop run with and without the per-task
  subtraction.\<close>

lemma step_counts_ok:
  assumes ok: "countsOk (t :: Task)"
    and A: "tMdo A = Fin a" "totalPauseOverlapFromTasks A = Fin p"
    and B: "tMdo B = Fin b" "totalPauseOverlapFromTasks B = Fin p"
    and le: "a \<le> b"
  shows "\<exists>a' b' p'.
           tMdo (taskStep tz True A (taskDuration dateOf t)) = Fin a'
         \<and> totalPauseOverlapFromTasks (taskStep tz True A (taskDuration dateOf t)) = Fin p'
         \<and> tMdo (taskStep tz False B (taskDuration dateOf t)) = Fin b'
         \<and> totalPauseOverlapFromTasks (taskStep tz False B (taskDuration dateOf t)) = Fin p'
         \<and> a' \<le> b'"
proof (cases t rule: hasTimestamps_cases [of dateOf])
  case untimed
  then show ?thesis
    using A B le by (simp add: taskStep_untimed)
next
  case (timed s e)
  define q where "q = sumPauseOverlapBetween tz s e / of_int (numOperators t) / of_int (numMachines t)"
  have q: "pauseOverlap tz t s e = Fin q"
    by (simp add: pauseOverlap_counts_ok [OF ok] q_def)
  have "0 \<le> q"
    using sumPause_nonneg [of tz s e] by (simp add: q_def divisors_nonzero)
  then have "max 0 (minutesBetween s e - q) \<le> max 0 (minutesBetween s e)"
    by simp
  then have "max 0 (minutesBetween s e - q) / of_int (numMachines t) / of_int (numOperators t)
           \<le> max 0 (minutesBetween s e) / of_int (numMachines t) / of_int (numOperators t)"
    by (simp add: divide_right_mono divisors_nonzero)
  with le show ?thesis
    by (simp add: taskStep_timed [OF timed] q adjustedDuration_Fin operatorTime_Fin A B
        add_mono)
qed

lemma loop_counts_ok:
  assumes "list_all countsOk ts"
    and "tMdo A = Fin a" "totalPauseOverlapFromTasks A = Fin p"
    and "tMdo B = Fin b" "totalPauseOverlapFromTasks B = Fin p"
    and "a \<le> b"
  shows "\<exists>a' b' p'.
           tMdo (foldl (taskStep tz True) A (map (taskDuration dateOf) ts)) = Fin a'
         \<and> totalPauseOverlapFromTasks (foldl (taskStep tz True) A (map (taskDuration dateOf) ts))
             = Fin p'
         \<and> tMdo (foldl (taskStep tz False) B (map (taskDuration dateOf) ts)) = Fin b'
         \<and> totalPauseOverlapFromTasks (foldl (taskStep tz False) B (map (taskDuration dateOf) ts))
             = Fin p'
         \<and> a' \<le> b'"
  using assms
proof (induction ts arbitrary: A B a b p)
  case Nil
  then show ?case by simp
next
  case (Cons t ts)
  from Cons.prems(1) have ok: "countsOk t" and rest: "list_all countsOk ts"
    by simp_all
  obtain a' b' p' where
    s: "tMdo (taskStep tz True A (taskDuration dateOf t)) = Fin a'"
       "totalPauseOverlapFromTasks (taskStep tz True A (taskDuration dateOf t)) = Fin p'"
       "tMdo (taskStep tz False B (taskDuration dateOf t)) = Fin b'"
       "totalPauseOverlapFromTasks (taskStep tz False B (taskDuration dateOf t)) = Fin p'"
       "a' \<le> b'"
    using step_counts_ok [OF ok Cons.prems(2-6)] by blast
  show ?case
    using Cons.IH [OF rest s] by simp
qed

lemma conventional_le_cnc_counts_ok:
  assumes ok: "list_all countsOk ts"
    and conv: "getOperationMachineType op1 = Some ''CONVENTIONAL''"
    and other: "getOperationMachineType op2 \<noteq> Some ''CONVENTIONAL''"
  shows "jle (tMdoMinutes (metrics dateOf tz (Some ts) order op1))
             (tMdoMinutes (metrics dateOf tz (Some ts) order op2))"
proof (cases "ts = []")
  case True
  then show ?thesis by (simp add: metrics_def emptyMetrics_def)
next
  case False
  obtain a b p where
    "tMdo (foldl (taskStep tz True) initialAggregates (map (taskDuration dateOf) ts)) = Fin a"
    "totalPauseOverlapFromTasks
       (foldl (taskStep tz True) initialAggregates (map (taskDuration dateOf) ts)) = Fin p"
    "tMdo (foldl (taskStep tz False) initialAggregates (map (taskDuration dateOf) ts)) = Fin b"
    "totalPauseOverlapFromTasks
       (foldl (taskStep tz False) initialAggregates (map (taskDuration dateOf) ts)) = Fin p"
    "a \<le> b"
    using loop_counts_ok [OF ok, of initialAggregates 0 0 initialAggregates 0 tz dateOf]
    by (auto simp: initialAggregates_def)
  then show ?thesis
    using conv other by (simp add: metrics_nonempty [OF False] Let_def jsub_def)
qed

lemma reversed_task_counts_ok:
  assumes ok: "countsOk t" and rev: "e < s"
  shows "minutesBetween s e = 0"
    and "pauseOverlap tz t s e = Fin 0"
    and "operatorTime (adjustedDuration sub (minutesBetween s e) (pauseOverlap tz t s e)) t = Fin 0"
    and "machineTime (adjustedDuration sub (minutesBetween s e) (pauseOverlap tz t s e)) t = Fin 0"
proof -
  show d: "minutesBetween s e = 0"
    using rev by (simp add: minutesBetween_def max_def)
  have "sumPauseOverlapBetween tz s e = 0"
    using rev by (simp add: sumPauseOverlapBetween_def)
  then show p: "pauseOverlap tz t s e = Fin 0"
    by (simp add: pauseOverlap_counts_ok [OF ok])
  show "operatorTime (adjustedDuration sub (minutesBetween s e) (pauseOverlap tz t s e)) t = Fin 0"
    by (simp add: d p adjustedDuration_Fin operatorTime_Fin)
  show "machineTime (adjustedDuration sub (minutesBetween s e) (pauseOverlap tz t s e)) t = Fin 0"
    by (simp add: d p adjustedDuration_Fin machineTime_Fin)
qed

lemma step_no_overlap:
  assumes "countsOk t"
    and "\<And>s e. parseISO dateOf (start_at t) = Some s \<Longrightarrow> parseISO dateOf (end_at t) = Some e
           \<Longrightarrow> sumPauseOverlapBetween tz s e = 0"
  shows "taskStep tz True A (taskDuration dateOf t) = taskStep tz False A (taskDuration dateOf t)"
proof (cases t rule: hasTimestamps_cases [of dateOf])
  case untimed
  then show ?thesis by (simp add: taskStep_untimed)
next
  case (timed s e)
  have "pauseOverlap tz t s e = Fin 0"
    using assms(2) [OF timed] by (simp add: pauseOverlap_counts_ok [OF assms(1)])
  then show ?thesis
    by (simp add: taskStep_timed [OF timed] adjustedDuration_Fin)
qed

lemma conventional_eq_cnc_no_overlap:
  assumes ok: "list_all countsOk ts"
    and none: "list_all (\<lambda>(t, s, e). sumPauseOverlapBetween tz s e = 0) (timedTasks dateOf ts)"
  shows "metrics dateOf tz (Some ts) order op1 = metrics dateOf tz (Some ts) order op2"
proof -
  have "foldl (taskStep tz True) A (map (taskDuration dateOf) ts) =
        foldl (taskStep tz False) A (map (taskDuration dateOf) ts)" for A
    using ok none
  proof (induction ts arbitrary: A)
    case Nil
    show ?case by simp
  next
    case (Cons t ts)
    from Cons.prems(1) have t: "countsOk t" and rest: "list_all countsOk ts"
      by simp_all
    have here: "sumPauseOverlapBetween tz s e = 0"
      if "parseISO dateOf (start_at t) = Some s" "parseISO dateOf (end_at t) = Some e" for s e
      using Cons.prems(2) that by simp
    have there: "list_all (\<lambda>(t, s, e). sumPauseOverlapBetween tz s e = 0) (timedTasks dateOf ts)"
    proof (cases t rule: hasTimestamps_cases [of dateOf])
      case untimed
      show ?thesis
        using Cons.prems(2) by (simp add: timedTasks_untimed [OF untimed] del: timedTasks.simps)
    next
      case (timed s e)
      show ?thesis
        using Cons.prems(2) by (simp add: timedTasks_timed [OF timed] del: timedTasks.simps)
    qed
    show ?case
      using Cons.IH [OF rest there] step_no_overlap [OF t here] by simp
  qed
  then have eq: "foldl (taskStep tz b) initialAggregates (map (taskDuration dateOf) ts) =
             foldl (taskStep tz c) initialAggregates (map (taskDuration dateOf) ts)" for b c
    by (cases b; cases c) simp_all
  show ?thesis
    by (cases "ts = []")
       (simp_all add: metrics_def Let_def
          eq [of "getOperationMachineType op1 = Some ''CONVENTIONAL''"
                 "getOperationMachineType op2 = Some ''CONVENTIONAL''"])
qed

end
